theory Spec2Isabelle
  imports Complex_Main "HOL-Library.Log_Nat"
begin

section \<open>Python values used by the interpreter\<close>

text \<open>
  A Python \<open>str\<close> is modelled as a \<open>string\<close> whose characters are the code points
  below 256 (Latin-1); the classification predicates below are Python's
  \<open>str.isspace\<close>, \<open>str.isdigit\<close>, \<open>str.isalpha\<close>, \<open>str.isalnum\<close> and \<open>str.lower\<close> on
  that range. Python integers are unbounded and modelled as \<open>int\<close>.
\<close>

definition code_point :: "char \<Rightarrow> nat" where
  "code_point c = of_char c"

definition isspace :: "char \<Rightarrow> bool" where
  "isspace c = (let n = code_point c in
     (9 \<le> n \<and> n \<le> 13) \<or> (28 \<le> n \<and> n \<le> 32) \<or> n = 133 \<or> n = 160)"

definition isdecimal :: "char \<Rightarrow> bool" where
  "isdecimal c = (let n = code_point c in 48 \<le> n \<and> n \<le> 57)"

definition isdigit :: "char \<Rightarrow> bool" where
  "isdigit c = (let n = code_point c in
     (48 \<le> n \<and> n \<le> 57) \<or> n = 178 \<or> n = 179 \<or> n = 185)"

definition isalpha :: "char \<Rightarrow> bool" where
  "isalpha c = (let n = code_point c in
     (65 \<le> n \<and> n \<le> 90) \<or> (97 \<le> n \<and> n \<le> 122) \<or> n = 170 \<or> n = 181 \<or> n = 186 \<or>
     (192 \<le> n \<and> n \<le> 214) \<or> (216 \<le> n \<and> n \<le> 246) \<or> (248 \<le> n \<and> n \<le> 255))"

definition isalnum :: "char \<Rightarrow> bool" where
  "isalnum c = (let n = code_point c in
     isalpha c \<or> isdigit c \<or> (188 \<le> n \<and> n \<le> 190))"

text \<open>
  \<open>str.lower\<close>: the upper-case letters \<open>A\<close>..\<open>Z\<close>, \<open>0xC0\<close>..\<open>0xD6\<close> and \<open>0xD8\<close>..\<open>0xDE\<close>
  move up by 32, which sets bit 5 of the code point (it is clear in all three ranges).
\<close>

fun plus32 :: "char \<Rightarrow> char" where
  "plus32 (Char b0 b1 b2 b3 b4 b5 b6 b7) = Char b0 b1 b2 b3 b4 True b6 b7"

definition isupper :: "char \<Rightarrow> bool" where
  "isupper c = (let n = code_point c in
     (65 \<le> n \<and> n \<le> 90) \<or> (192 \<le> n \<and> n \<le> 214) \<or> (216 \<le> n \<and> n \<le> 222))"

definition lower_char :: "char \<Rightarrow> char" where
  "lower_char c = (if isupper c then plus32 c else c)"

definition lower :: "string \<Rightarrow> string" where
  "lower s = map lower_char s"

text \<open>\<open>str(n)\<close> for an integer: its decimal digits, with a leading minus sign.\<close>

fun str_nat :: "nat \<Rightarrow> string" where
  "str_nat n = (if n < 10 then [''0123456789'' ! n]
                else str_nat (n div 10) @ [''0123456789'' ! (n mod 10)])"

declare str_nat.simps [simp del]

definition str_int :: "int \<Rightarrow> string" where
  "str_int i = (if i < 0 then ''-'' @ str_nat (nat (- i)) else str_nat (nat i))"

text \<open>
  Exceptions are values: the exception class and its message (\<open>str(e)\<close>). The lexer and the
  parser raise plain \<open>Exception\<close>; the others come from the built-in conversions and from
  the drawing surface.
\<close>

datatype error =
    Exception string
  | ValueError string
  | OverflowError string
  | AttributeError string
  | TclError string

fun error_str :: "error \<Rightarrow> string" where
  "error_str (Exception m) = m"
| "error_str (ValueError m) = m"
| "error_str (OverflowError m) = m"
| "error_str (AttributeError m) = m"
| "error_str (TclError m) = m"

text \<open>
  A Python \<open>float\<close> is a finite rational (every binary64 value is one), an infinity or
  NaN. The values a parameter dictionary holds are floats, integers and strings.
\<close>

datatype pyfloat = Finite rat | PosInf | NegInf | NaN

datatype pyval = PFloat pyfloat | PInt int | PStr string

text \<open>\<open>repr(s)\<close> of a string, as it appears in the messages of \<open>ValueError\<close>.\<close>

definition hex_digit :: "nat \<Rightarrow> char" where
  "hex_digit n = ''0123456789abcdef'' ! n"

definition repr_char :: "char \<Rightarrow> char \<Rightarrow> string" where
  "repr_char quote c = (let n = code_point c in
     if c = quote \<or> c = CHR 0x5C then [CHR 0x5C, c]
     else if n = 9 then [CHR 0x5C, CHR ''t'']
     else if n = 10 then [CHR 0x5C, CHR ''n'']
     else if n = 13 then [CHR 0x5C, CHR ''r'']
     else if n < 32 \<or> n = 127 \<or> (128 \<le> n \<and> n \<le> 160) \<or> n = 173
     then [CHR 0x5C, CHR ''x'', hex_digit (n div 16), hex_digit (n mod 16)]
     else [c])"

definition py_repr :: "string \<Rightarrow> string" where
  "py_repr s = (let quote = (if CHR 0x27 \<in> set s \<and> CHR 0x22 \<notin> set s then CHR 0x22 else CHR 0x27)
     in [quote] @ concat (map (repr_char quote) s) @ [quote])"

text \<open>
  \<open>int(s)\<close> and \<open>float(s)\<close> on a string: surrounding whitespace is dropped, then an optional
  sign and groups of decimal digits separated by single underscores are read.
\<close>

definition conv_space :: "char \<Rightarrow> bool" where
  "conv_space c = (let n = code_point c in (9 \<le> n \<and> n \<le> 13) \<or> n = 32 \<or> n = 133 \<or> n = 160)"

definition strip :: "string \<Rightarrow> string" where
  "strip s = rev (dropWhile conv_space (rev (dropWhile conv_space s)))"

definition digit_val :: "char \<Rightarrow> nat" where
  "digit_val c = code_point c - 48"

fun digits_rest :: "nat list \<Rightarrow> string \<Rightarrow> nat list \<times> string" where
  "digits_rest acc [] = (acc, [])"
| "digits_rest acc [c] = (if isdecimal c then (acc @ [digit_val c], []) else (acc, [c]))"
| "digits_rest acc (c # d # ds) =
     (if isdecimal c then digits_rest (acc @ [digit_val c]) (d # ds)
      else if c = CHR ''_'' \<and> isdecimal d then digits_rest (acc @ [digit_val d]) ds
      else (acc, c # d # ds))"

definition digitpart :: "string \<Rightarrow> (nat list \<times> string) option" where
  "digitpart s = (case s of
      [] \<Rightarrow> None
    | c # cs \<Rightarrow> if isdecimal c then Some (digits_rest [digit_val c] cs) else None)"

definition decimal_value :: "nat list \<Rightarrow> nat" where
  "decimal_value ds = foldl (\<lambda>a d. 10 * a + d) 0 ds"

definition split_sign :: "string \<Rightarrow> bool \<times> string" where
  "split_sign s = (case s of
      [] \<Rightarrow> (False, [])
    | c # cs \<Rightarrow> if c = CHR ''-'' then (True, cs) else if c = CHR ''+'' then (False, cs) else (False, s))"

definition py_int_str :: "string \<Rightarrow> error + int" where
  "py_int_str s =
     (let (neg, body) = split_sign (strip s)
      in case digitpart body of
           Some (ds, []) \<Rightarrow> Inr (if neg then - int (decimal_value ds) else int (decimal_value ds))
         | _ \<Rightarrow> Inl (ValueError (''invalid literal for int() with base 10: '' @ py_repr s)))"

text \<open>
  \<open>float(s)\<close> rounds the decimal value to the nearest binary64 number (ties to even, 53
  bits of mantissa, exponents from \<open>-1074\<close>); a value that rounds to \<open>2^1024\<close> or more is an
  infinity.
\<close>

definition pow2 :: "int \<Rightarrow> rat" where
  "pow2 k = (if k \<ge> 0 then 2 ^ nat k else 1 / 2 ^ nat (- k))"

definition pow10 :: "int \<Rightarrow> rat" where
  "pow10 k = (if k \<ge> 0 then 10 ^ nat k else 1 / 10 ^ nat (- k))"

definition ilog2 :: "rat \<Rightarrow> int" where
  "ilog2 a = (let (n, d) = quotient_of a; k = bitlen n - bitlen d
              in if pow2 k \<le> a then k else k - 1)"

definition round_half_even :: "rat \<Rightarrow> int" where
  "round_half_even q = (let f = \<lfloor>q\<rfloor>; r = q - of_int f
     in if r < 1 / 2 then f else if r > 1 / 2 then f + 1 else if even f then f else f + 1)"

definition binary64 :: "rat \<Rightarrow> pyfloat" where
  "binary64 q =
     (if q = 0 then Finite 0
      else let a = \<bar>q\<bar>;
               e = ilog2 a;
               p = max (e - 52) (- 1074);
               m = round_half_even (a / pow2 p);
               r = of_int m * pow2 p
           in if r \<ge> pow2 1024 then (if q > 0 then PosInf else NegInf)
              else Finite (if q > 0 then r else - r))"

definition float_exponent :: "string \<Rightarrow> int option" where
  "float_exponent s = (case s of
      [] \<Rightarrow> Some 0
    | c # cs \<Rightarrow>
        if c = CHR ''e'' \<or> c = CHR ''E'' then
          (let (neg, body) = split_sign cs
           in case digitpart body of
                Some (ds, []) \<Rightarrow> Some (if neg then - int (decimal_value ds) else int (decimal_value ds))
              | _ \<Rightarrow> None)
        else None)"

definition float_number :: "string \<Rightarrow> rat option" where
  "float_number s =
     (let mant = (\<lambda>ip fp rest.
            case float_exponent rest of
              None \<Rightarrow> None
            | Some ex \<Rightarrow> Some (of_nat (decimal_value (ip @ fp)) * pow10 (ex - int (length fp))))
      in case digitpart s of
           Some (ip, rest) \<Rightarrow>
             (case rest of
                c # r2 \<Rightarrow>
                  if c = CHR ''.'' then
                    (case digitpart r2 of
                       Some (fp, r3) \<Rightarrow> mant ip fp r3
                     | None \<Rightarrow> mant ip [] r2)
                  else mant ip [] rest
              | [] \<Rightarrow> mant ip [] rest)
         | None \<Rightarrow>
             (case s of
                c # r2 \<Rightarrow>
                  if c = CHR ''.'' then
                    (case digitpart r2 of
                       Some (fp, r3) \<Rightarrow> mant [] fp r3
                     | None \<Rightarrow> None)
                  else None
              | [] \<Rightarrow> None))"

definition py_float :: "string \<Rightarrow> error + pyfloat" where
  "py_float s =
     (let (neg, body) = split_sign (strip s)
      in if lower body = ''inf'' \<or> lower body = ''infinity'' then Inr (if neg then NegInf else PosInf)
         else if lower body = ''nan'' then Inr NaN
         else case float_number body of
                Some q \<Rightarrow> Inr (binary64 (if neg then - q else q))
              | None \<Rightarrow> Inl (ValueError (''could not convert string to float: '' @ py_repr s)))"

text \<open>\<open>int(v)\<close>: a float is truncated towards zero; infinities and NaN raise.\<close>

definition py_int :: "pyval \<Rightarrow> error + int" where
  "py_int v = (case v of
      PInt i \<Rightarrow> Inr i
    | PFloat (Finite q) \<Rightarrow> Inr (if q \<ge> 0 then \<lfloor>q\<rfloor> else \<lceil>q\<rceil>)
    | PFloat PosInf \<Rightarrow> Inl (OverflowError ''cannot convert float infinity to integer'')
    | PFloat NegInf \<Rightarrow> Inl (OverflowError ''cannot convert float infinity to integer'')
    | PFloat NaN \<Rightarrow> Inl (ValueError ''cannot convert float NaN to integer'')
    | PStr s \<Rightarrow> py_int_str s)"

section \<open>Lexer (lexer.py)\<close>

datatype token_type =
  KEYWORD | NUMBER | STRING | COLOR | LPAREN | RPAREN | COMMA | EOF | UNKNOWN

fun token_type_name :: "token_type \<Rightarrow> string" where
  "token_type_name KEYWORD = ''KEYWORD''"
| "token_type_name NUMBER = ''NUMBER''"
| "token_type_name STRING = ''STRING''"
| "token_type_name COLOR = ''COLOR''"
| "token_type_name LPAREN = ''LPAREN''"
| "token_type_name RPAREN = ''RPAREN''"
| "token_type_name COMMA = ''COMMA''"
| "token_type_name EOF = ''EOF''"
| "token_type_name UNKNOWN = ''UNKNOWN''"

record token =
  tok_type :: token_type
  tok_value :: string
  tok_line :: int
  tok_col :: int

definition Token :: "token_type \<Rightarrow> string \<Rightarrow> int \<Rightarrow> int \<Rightarrow> token" where
  "Token ty v l c = \<lparr>tok_type = ty, tok_value = v, tok_line = l, tok_col = c\<rparr>"

definition KEYWORDS :: "string list" where
  "KEYWORDS = [''draw'', ''line'', ''circle'', ''rectangle'', ''set'', ''color'', ''clear'',
               ''move'', ''to'', ''from'', ''pen'', ''up'', ''down'', ''fill'']"

definition COLORS :: "string list" where
  "COLORS = [''red'', ''green'', ''blue'', ''yellow'', ''orange'', ''purple'', ''pink'',
             ''black'', ''white'', ''gray'', ''grey'', ''brown'', ''cyan'', ''magenta'']"

record lexer =
  "text" :: string
  pos :: nat
  line :: int
  col :: int
  current_char :: "char option"

definition Lexer :: "string \<Rightarrow> lexer" where
  "Lexer txt = \<lparr>text = txt, pos = 0, line = 1, col = 0,
                current_char = (if 0 < length txt then Some (txt ! 0) else None)\<rparr>"

definition lexer_error :: "lexer \<Rightarrow> string \<Rightarrow> error" where
  "lexer_error s message =
     Exception (''Lexical error at line '' @ str_int (line s) @ '', column '' @ str_int (col s)
                @ '': '' @ message)"

definition lexer_advance :: "lexer \<Rightarrow> lexer" where
  "lexer_advance s =
     (let s1 = (if current_char s = Some (CHR 0x0A)
                then s\<lparr>line := line s + 1, col := 0\<rparr>
                else s\<lparr>col := col s + 1\<rparr>);
          p = pos s + 1
      in s1\<lparr>pos := p,
             current_char := (if p \<ge> length (text s) then None else Some (text s ! p))\<rparr>)"

text \<open>The number of characters still to be scanned; every loop of the lexer decreases it.\<close>

definition remaining :: "lexer \<Rightarrow> nat" where
  "remaining s = (case current_char s of None \<Rightarrow> 0 | Some c \<Rightarrow> Suc (length (text s) - pos s))"

lemma remaining_advance:
  "current_char s = Some c \<Longrightarrow> remaining (lexer_advance s) < remaining s"
  by (auto simp: remaining_def lexer_advance_def Let_def)

function skip_whitespace :: "lexer \<Rightarrow> lexer" where
  "skip_whitespace s =
     (case current_char s of
        None \<Rightarrow> s
      | Some c \<Rightarrow> if isspace c then skip_whitespace (lexer_advance s) else s)"
  by pat_completeness auto
termination
  by (relation "measure remaining") (auto simp: remaining_advance)

declare skip_whitespace.simps [simp del]

function skip_to_newline :: "lexer \<Rightarrow> lexer" where
  "skip_to_newline s =
     (case current_char s of
        None \<Rightarrow> s
      | Some c \<Rightarrow> if c \<noteq> CHR 0x0A then skip_to_newline (lexer_advance s) else s)"
  by pat_completeness auto
termination
  by (relation "measure remaining") (auto simp: remaining_advance)

declare skip_to_newline.simps [simp del]

definition skip_comment :: "lexer \<Rightarrow> lexer" where
  "skip_comment s =
     (let s1 = skip_to_newline s
      in if current_char s1 = Some (CHR 0x0A) then lexer_advance s1 else s1)"

function read_number_loop :: "lexer \<Rightarrow> string \<Rightarrow> nat \<Rightarrow> string \<times> lexer" where
  "read_number_loop s result dot_count =
     (case current_char s of
        None \<Rightarrow> (result, s)
      | Some c \<Rightarrow>
          if isdigit c \<or> c = CHR ''.'' then
            (if c = CHR ''.'' then
               (let dot_count' = dot_count + 1
                in if dot_count' > 1 then (result, s)
                   else read_number_loop (lexer_advance s) (result @ [c]) dot_count')
             else read_number_loop (lexer_advance s) (result @ [c]) dot_count)
          else (result, s))"
  by pat_completeness auto
termination
  by (relation "measure (\<lambda>(s, r, d). remaining s)") (auto simp: remaining_advance)

declare read_number_loop.simps [simp del]

definition read_number :: "lexer \<Rightarrow> string \<times> lexer" where
  "read_number s = read_number_loop s [] 0"

function read_string_loop :: "lexer \<Rightarrow> string \<Rightarrow> error + (string \<times> lexer)" where
  "read_string_loop s result =
     (case current_char s of
        None \<Rightarrow> Inl (lexer_error s ''Unterminated string'')
      | Some c \<Rightarrow>
          if c \<noteq> CHR 0x22 then
            (if c = CHR 0x5C then
               (let s1 = lexer_advance s
                in case current_char s1 of
                     None \<Rightarrow> Inl (lexer_error s1 ''Unterminated string'')
                   | Some d \<Rightarrow>
                       read_string_loop (lexer_advance s1)
                         (result @ [if d = CHR ''n'' then CHR 0x0A
                                    else if d = CHR ''t'' then CHR 0x09 else d]))
             else read_string_loop (lexer_advance s) (result @ [c]))
          else Inr (result, lexer_advance s))"
  by pat_completeness auto
termination
proof (relation "measure (\<lambda>(s, r). remaining s)")
  show "wf (measure (\<lambda>(s, r). remaining s))" by simp
next
  fix s :: lexer and result :: string and c s1 d
  assume "current_char s = Some c" "s1 = lexer_advance s" "current_char s1 = Some d"
  then have "remaining (lexer_advance s1) < remaining s1" "remaining s1 < remaining s"
    by (auto simp: remaining_advance)
  then show "((lexer_advance s1, result @ [if d = CHR ''n'' then CHR 0x0A
                 else if d = CHR ''t'' then CHR 0x09 else d]), s, result)
             \<in> measure (\<lambda>(s, r). remaining s)"
    by simp
next
  fix s :: lexer and result :: string and c
  assume "current_char s = Some c"
  then show "((lexer_advance s, result @ [c]), s, result) \<in> measure (\<lambda>(s, r). remaining s)"
    by (simp add: remaining_advance)
qed

declare read_string_loop.simps [simp del]

definition read_string :: "lexer \<Rightarrow> error + (string \<times> lexer)" where
  "read_string s = read_string_loop (lexer_advance s) []"

function read_identifier_loop :: "lexer \<Rightarrow> string \<Rightarrow> string \<times> lexer" where
  "read_identifier_loop s result =
     (case current_char s of
        None \<Rightarrow> (result, s)
      | Some c \<Rightarrow>
          if isalnum c \<or> c = CHR ''_'' then read_identifier_loop (lexer_advance s) (result @ [c])
          else (result, s))"
  by pat_completeness auto
termination
  by (relation "measure (\<lambda>(s, r). remaining s)") (auto simp: remaining_advance)

declare read_identifier_loop.simps [simp del]

definition read_identifier :: "lexer \<Rightarrow> string \<times> lexer" where
  "read_identifier s = read_identifier_loop s []"

lemma skip_whitespace_remaining: "remaining (skip_whitespace s) \<le> remaining s"
proof (induction s rule: skip_whitespace.induct)
  case (1 s)
  show ?case
  proof (cases "current_char s")
    case None
    then show ?thesis by (simp add: skip_whitespace.simps [of s])
  next
    case (Some c)
    with 1 [of c] remaining_advance [of s c] show ?thesis
      by (cases "isspace c") (auto simp: skip_whitespace.simps [of s])
  qed
qed

lemma skip_whitespace_progress:
  assumes "current_char s = Some c" "isspace c"
  shows "remaining (skip_whitespace s) < remaining s"
proof -
  have "skip_whitespace s = skip_whitespace (lexer_advance s)"
    using assms by (simp add: skip_whitespace.simps [of s])
  with skip_whitespace_remaining [of "lexer_advance s"] remaining_advance [OF assms(1)]
  show ?thesis by simp
qed

lemma skip_to_newline_remaining: "remaining (skip_to_newline s) \<le> remaining s"
proof (induction s rule: skip_to_newline.induct)
  case (1 s)
  show ?case
  proof (cases "current_char s")
    case None
    then show ?thesis by (simp add: skip_to_newline.simps [of s])
  next
    case (Some c)
    with 1 [of c] remaining_advance [of s c] show ?thesis
      by (cases "c = CHR 0x0A") (auto simp: skip_to_newline.simps [of s])
  qed
qed

lemma skip_comment_progress:
  assumes "current_char s = Some c"
  shows "remaining (skip_comment s) < remaining s"
proof (cases "c = CHR 0x0A")
  case True
  with assms have "skip_comment s = lexer_advance s"
    by (simp add: skip_comment_def skip_to_newline.simps [of s])
  with remaining_advance [OF assms] show ?thesis by simp
next
  case False
  with assms have eq: "skip_to_newline s = skip_to_newline (lexer_advance s)"
    by (simp add: skip_to_newline.simps [of s])
  have le: "remaining (skip_to_newline s) < remaining s"
    using eq skip_to_newline_remaining [of "lexer_advance s"] remaining_advance [OF assms]
    by simp
  show ?thesis
  proof (cases "current_char (skip_to_newline s) = Some (CHR 0x0A)")
    case True
    with remaining_advance [of "skip_to_newline s" "CHR 0x0A"] le show ?thesis
      by (simp add: skip_comment_def)
  next
    case False
    with le show ?thesis by (simp add: skip_comment_def)
  qed
qed

function get_next_token :: "lexer \<Rightarrow> error + (token \<times> lexer)" where
  "get_next_token s =
     (case current_char s of
        None \<Rightarrow> Inr (Token EOF [] (line s) (col s), s)
      | Some c \<Rightarrow>
          if isspace c then get_next_token (skip_whitespace s)
          else if c = CHR ''#'' then get_next_token (skip_comment s)
          else if isdigit c \<or> (c = CHR ''.'' \<and> pos s + 1 < length (text s)
                                  \<and> isdigit (text s ! (pos s + 1))) then
            (let col0 = col s;
                 (num_str, s') = read_number s
             in Inr (Token NUMBER num_str (line s') col0, s'))
          else if c = CHR 0x22 then
            (let col0 = col s
             in case read_string s of
                  Inl e \<Rightarrow> Inl e
                | Inr (str_val, s') \<Rightarrow> Inr (Token STRING str_val (line s') col0, s'))
          else if isalpha c \<or> c = CHR ''_'' then
            (let col0 = col s;
                 (identifier, s') = read_identifier s
             in if lower identifier \<in> set KEYWORDS
                then Inr (Token KEYWORD (lower identifier) (line s') col0, s')
                else if lower identifier \<in> set COLORS
                then Inr (Token COLOR (lower identifier) (line s') col0, s')
                else Inr (Token KEYWORD (lower identifier) (line s') col0, s'))
          else if c = CHR ''('' then
            (let col0 = col s; s' = lexer_advance s in Inr (Token LPAREN [c] (line s') col0, s'))
          else if c = CHR '')'' then
            (let col0 = col s; s' = lexer_advance s in Inr (Token RPAREN [c] (line s') col0, s'))
          else if c = CHR '','' then
            (let col0 = col s; s' = lexer_advance s in Inr (Token COMMA [c] (line s') col0, s'))
          else
            (let col0 = col s; s' = lexer_advance s in Inr (Token UNKNOWN [c] (line s') col0, s')))"
  by pat_completeness auto
termination
  by (relation "measure remaining")
     (auto simp: skip_whitespace_progress skip_comment_progress)

declare get_next_token.simps [simp del]

lemma Token_sel [simp]:
  "tok_type (Token ty v l c) = ty" "tok_value (Token ty v l c) = v"
  "tok_line (Token ty v l c) = l" "tok_col (Token ty v l c) = c"
  by (simp_all add: Token_def)

lemma read_number_loop_remaining:
  "remaining (snd (read_number_loop s r d)) \<le> remaining s"
proof (induction s r d rule: read_number_loop.induct)
  case (1 s r d)
  show ?case
  proof (cases "current_char s")
    case None
    then show ?thesis by (simp add: read_number_loop.simps [of s])
  next
    case (Some c)
    with 1 [of c] remaining_advance [of s c] show ?thesis
      by (auto simp: read_number_loop.simps [of s] Let_def)
  qed
qed

lemma read_number_progress:
  assumes "current_char s = Some c" "isdigit c \<or> c = CHR ''.''"
  shows "remaining (snd (read_number s)) < remaining s"
proof -
  have "\<exists>d. read_number s = read_number_loop (lexer_advance s) [c] d"
    using assms by (auto simp: read_number_def read_number_loop.simps [of s] Let_def)
  then obtain d where "read_number s = read_number_loop (lexer_advance s) [c] d" ..
  with read_number_loop_remaining [of "lexer_advance s" "[c]" d] remaining_advance [OF assms(1)]
  show ?thesis by simp
qed

lemma read_identifier_loop_remaining:
  "remaining (snd (read_identifier_loop s r)) \<le> remaining s"
proof (induction s r rule: read_identifier_loop.induct)
  case (1 s r)
  show ?case
  proof (cases "current_char s")
    case None
    then show ?thesis by (simp add: read_identifier_loop.simps [of s])
  next
    case (Some c)
    with 1 [of c] remaining_advance [of s c] show ?thesis
      by (auto simp: read_identifier_loop.simps [of s])
  qed
qed

lemma isalpha_isalnum: "isalpha c \<Longrightarrow> isalnum c"
  by (simp add: isalnum_def)

lemma read_identifier_progress:
  assumes "current_char s = Some c" "isalpha c \<or> c = CHR ''_''"
  shows "remaining (snd (read_identifier s)) < remaining s"
proof -
  have "read_identifier s = read_identifier_loop (lexer_advance s) [c]"
    using assms
    by (auto simp: read_identifier_def read_identifier_loop.simps [of s] isalpha_isalnum)
  with read_identifier_loop_remaining [of "lexer_advance s" "[c]"] remaining_advance [OF assms(1)]
  show ?thesis by simp
qed

lemma read_string_loop_remaining:
  "read_string_loop s r = Inr (v, s') \<Longrightarrow> remaining s' \<le> remaining s"
proof (induction s r rule: read_string_loop.induct)
  case (1 s r)
  show ?case
  proof (cases "current_char s")
    case None
    with 1(3) show ?thesis by (simp add: read_string_loop.simps [of s])
  next
    case (Some c)
    note c = this
    show ?thesis
    proof (cases "c = CHR 0x22")
      case True
      with c 1(3) remaining_advance [OF c] show ?thesis
        by (auto simp: read_string_loop.simps [of s])
    next
      case nq: False
      show ?thesis
      proof (cases "c = CHR 0x5C")
        case True
        show ?thesis
        proof (cases "current_char (lexer_advance s)")
          case None
          with c nq True 1(3) show ?thesis
            by (simp add: read_string_loop.simps [of s])
        next
          case (Some d)
          with c nq True 1(3)
          have "read_string_loop (lexer_advance (lexer_advance s))
                  (r @ [if d = CHR ''n'' then CHR 0x0A else if d = CHR ''t'' then CHR 0x09 else d])
                = Inr (v, s')"
            by (simp add: read_string_loop.simps [of s])
          from 1(1) [OF c nq True refl Some this]
          have "remaining s' \<le> remaining (lexer_advance (lexer_advance s))" .
          with remaining_advance [OF Some] remaining_advance [OF c] show ?thesis by simp
        qed
      next
        case False
        with c nq 1(3) have "read_string_loop (lexer_advance s) (r @ [c]) = Inr (v, s')"
          by (simp add: read_string_loop.simps [of s])
        from 1(2) [OF c nq False this] remaining_advance [OF c] show ?thesis by simp
      qed
    qed
  qed
qed

lemma read_string_progress:
  assumes "current_char s = Some c" "read_string s = Inr (v, s')"
  shows "remaining s' < remaining s"
  using read_string_loop_remaining [of "lexer_advance s" "[]" v s'] assms
        remaining_advance [OF assms(1)]
  by (simp add: read_string_def)

lemma get_next_token_progress:
  "get_next_token s = Inr (t, s') \<Longrightarrow> tok_type t \<noteq> EOF \<Longrightarrow> remaining s' < remaining s"
proof (induction s rule: get_next_token.induct)
  case (1 s)
  show ?case
  proof (cases "current_char s")
    case None
    with 1(3,4) show ?thesis by (auto simp: get_next_token.simps [of s])
  next
    case (Some c)
    note c = this
    consider (ws) "isspace c"
      | (cm) "\<not> isspace c" "c = CHR ''#''"
      | (num) "\<not> isspace c" "c \<noteq> CHR ''#''"
              "isdigit c \<or> (c = CHR ''.'' \<and> pos s + 1 < length (text s)
                 \<and> isdigit (text s ! (pos s + 1)))"
      | (str) "\<not> isspace c" "c \<noteq> CHR ''#''"
              "\<not> (isdigit c \<or> (c = CHR ''.'' \<and> pos s + 1 < length (text s)
                 \<and> isdigit (text s ! (pos s + 1))))" "c = CHR 0x22"
      | (ident) "\<not> isspace c" "c \<noteq> CHR ''#''"
              "\<not> (isdigit c \<or> (c = CHR ''.'' \<and> pos s + 1 < length (text s)
                 \<and> isdigit (text s ! (pos s + 1))))" "c \<noteq> CHR 0x22"
              "isalpha c \<or> c = CHR ''_''"
      | (single) "\<not> isspace c" "c \<noteq> CHR ''#''"
              "\<not> (isdigit c \<or> (c = CHR ''.'' \<and> pos s + 1 < length (text s)
                 \<and> isdigit (text s ! (pos s + 1))))" "c \<noteq> CHR 0x22"
              "\<not> (isalpha c \<or> c = CHR ''_'')"
      by blast
    then show ?thesis
    proof cases
      case ws
      with c 1(3) have "get_next_token (skip_whitespace s) = Inr (t, s')"
        by (simp add: get_next_token.simps [of s])
      from 1(1) [OF c ws this 1(4)] skip_whitespace_remaining [of s] show ?thesis by simp
    next
      case cm
      with c 1(3) have "get_next_token (skip_comment s) = Inr (t, s')"
        by (simp add: get_next_token.simps [of s])
      from 1(2) [OF c cm this 1(4)] skip_comment_progress [OF c] show ?thesis by simp
    next
      case num
      with c 1(3) have "s' = snd (read_number s)"
        by (auto simp: get_next_token.simps [of s] Let_def split: prod.splits)
      moreover from num have "isdigit c \<or> c = CHR ''.''" by blast
      ultimately show ?thesis using read_number_progress [OF c] by simp
    next
      case str
      with c 1(3) obtain v where "read_string s = Inr (v, s')"
        by (auto simp: get_next_token.simps [of s] Let_def split: prod.splits sum.splits)
      then show ?thesis using read_string_progress [OF c] by simp
    next
      case ident
      with c 1(3) have "s' = snd (read_identifier s)"
        by (auto simp: get_next_token.simps [of s] Let_def split: prod.splits if_splits)
      then show ?thesis using read_identifier_progress [OF c ident(5)] by simp
    next
      case single
      with c 1(3) have "s' = lexer_advance s"
        by (auto simp: get_next_token.simps [of s] Let_def split: if_splits)
      then show ?thesis using remaining_advance [OF c] by simp
    qed
  qed
qed

function tokenize_loop :: "lexer \<Rightarrow> token list \<Rightarrow> error + token list" where
  "tokenize_loop s tokens =
     (case get_next_token s of
        Inl e \<Rightarrow> Inl e
      | Inr (token, s') \<Rightarrow>
          (let tokens' = tokens @ [token]
           in if tok_type token = EOF then Inr tokens' else tokenize_loop s' tokens'))"
  by pat_completeness auto
termination
  by (relation "measure (\<lambda>(s, ts). remaining s)") (auto simp: get_next_token_progress)

declare tokenize_loop.simps [simp del]

definition tokenize :: "string \<Rightarrow> error + token list" where
  "tokenize txt = tokenize_loop (Lexer txt) []"

section \<open>Parser (parser.py)\<close>

datatype command_type =
  DRAW_LINE | DRAW_CIRCLE | DRAW_RECTANGLE | SET_COLOR | CLEAR | MOVE | PEN_UP | PEN_DOWN | FILL

fun command_type_name :: "command_type \<Rightarrow> string" where
  "command_type_name DRAW_LINE = ''DRAW_LINE''"
| "command_type_name DRAW_CIRCLE = ''DRAW_CIRCLE''"
| "command_type_name DRAW_RECTANGLE = ''DRAW_RECTANGLE''"
| "command_type_name SET_COLOR = ''SET_COLOR''"
| "command_type_name CLEAR = ''CLEAR''"
| "command_type_name MOVE = ''MOVE''"
| "command_type_name PEN_UP = ''PEN_UP''"
| "command_type_name PEN_DOWN = ''PEN_DOWN''"
| "command_type_name FILL = ''FILL''"

record command =
  command_type :: command_type
  params :: "string \<rightharpoonup> pyval"
  cmd_line :: int
  cmd_col :: int

definition Command :: "command_type \<Rightarrow> (string \<rightharpoonup> pyval) \<Rightarrow> command" where
  "Command ty ps = \<lparr>command_type = ty, params = ps, cmd_line = 0, cmd_col = 0\<rparr>"

record parser =
  tokens :: "token list"
  ppos :: nat
  current_token :: "token option"

definition Parser :: "token list \<Rightarrow> parser" where
  "Parser toks = \<lparr>tokens = toks, ppos = 0,
                  current_token = (if 0 < length toks then Some (toks ! 0) else None)\<rparr>"

text \<open>
  A method of the parser either returns a value or raises; in both cases the parser has
  moved as far as it had read, so the state is part of both outcomes.
\<close>

type_synonym 'a presult = "(error + 'a) \<times> parser"

text \<open>A text between single quotes, as the messages' format strings write it.\<close>

definition quoted :: "string \<Rightarrow> string" where
  "quoted s = [CHR 0x27] @ s @ [CHR 0x27]"

definition parser_error :: "parser \<Rightarrow> string \<Rightarrow> error" where
  "parser_error p message =
     (case current_token p of
        Some t \<Rightarrow> Exception (''Parse error at line '' @ str_int (tok_line t) @ '', column ''
                              @ str_int (tok_col t) @ '': '' @ message)
      | None \<Rightarrow> Exception (''Parse error: '' @ message))"

definition parser_advance :: "parser \<Rightarrow> parser" where
  "parser_advance p =
     (let q = ppos p + 1
      in p\<lparr>ppos := q,
            current_token := (if q \<ge> length (tokens p) then None else Some (tokens p ! q))\<rparr>)"

definition expect :: "parser \<Rightarrow> token_type \<Rightarrow> string option \<Rightarrow> token presult" where
  "expect p ty val =
     (case current_token p of
        None \<Rightarrow>
          (Inl (parser_error p (''Unexpected end of input, expected '' @ token_type_name ty)), p)
      | Some t \<Rightarrow>
          if tok_type t \<noteq> ty then
            (Inl (parser_error p (''Expected '' @ token_type_name ty @ '', got ''
                                  @ token_type_name (tok_type t))), p)
          else if val \<noteq> None \<and> lower (tok_value t) \<noteq> lower (the val) then
            (Inl (parser_error p (''Expected '' @ quoted (the val) @ '', got '' @ quoted (tok_value t))), p)
          else (Inr t, parser_advance p))"

definition parse_number :: "parser \<Rightarrow> pyfloat presult" where
  "parse_number p =
     (case expect p NUMBER None of
        (Inl e, p') \<Rightarrow> (Inl e, p')
      | (Inr token, p') \<Rightarrow>
          (case py_float (tok_value token) of
             Inr v \<Rightarrow> (Inr v, p')
           | Inl (ValueError m) \<Rightarrow> (Inl (parser_error p' (''Invalid number: '' @ tok_value token)), p')
           | Inl e \<Rightarrow> (Inl e, p')))"

text \<open>Sequencing of two steps: the second runs only when the first has not raised.\<close>

definition and_then :: "(parser \<Rightarrow> 'a presult) \<Rightarrow> ('a \<Rightarrow> parser \<Rightarrow> 'b presult) \<Rightarrow> parser \<Rightarrow> 'b presult"
  where
  "and_then f g p = (case f p of (Inl e, p') \<Rightarrow> (Inl e, p') | (Inr x, p') \<Rightarrow> g x p')"

definition parse_draw_line :: "parser \<Rightarrow> int \<Rightarrow> int \<Rightarrow> command presult" where
  "parse_draw_line p line0 col0 =
     (case and_then parse_number (\<lambda>x1.
           and_then parse_number (\<lambda>y1.
           and_then parse_number (\<lambda>x2.
           and_then parse_number (\<lambda>y2 q.
             (Inr [''x1'' \<mapsto> PFloat x1, ''y1'' \<mapsto> PFloat y1,
                   ''x2'' \<mapsto> PFloat x2, ''y2'' \<mapsto> PFloat y2], q))))) p of
        (Inl e, p') \<Rightarrow> (Inl (parser_error p' ''draw line requires 4 numbers: x1 y1 x2 y2''), p')
      | (Inr ps, p') \<Rightarrow> (Inr ((Command DRAW_LINE ps)\<lparr>cmd_line := line0, cmd_col := col0\<rparr>), p'))"

definition parse_draw_circle :: "parser \<Rightarrow> int \<Rightarrow> int \<Rightarrow> command presult" where
  "parse_draw_circle p line0 col0 =
     (case and_then parse_number (\<lambda>x.
           and_then parse_number (\<lambda>y.
           and_then parse_number (\<lambda>radius q.
             (Inr [''x'' \<mapsto> PFloat x, ''y'' \<mapsto> PFloat y, ''radius'' \<mapsto> PFloat radius], q)))) p of
        (Inl e, p') \<Rightarrow> (Inl (parser_error p' ''draw circle requires 3 numbers: x y radius''), p')
      | (Inr ps, p') \<Rightarrow> (Inr ((Command DRAW_CIRCLE ps)\<lparr>cmd_line := line0, cmd_col := col0\<rparr>), p'))"

definition parse_draw_rectangle :: "parser \<Rightarrow> int \<Rightarrow> int \<Rightarrow> command presult" where
  "parse_draw_rectangle p line0 col0 =
     (case and_then parse_number (\<lambda>x.
           and_then parse_number (\<lambda>y.
           and_then parse_number (\<lambda>w.
           and_then parse_number (\<lambda>h q.
             (Inr [''x'' \<mapsto> PFloat x, ''y'' \<mapsto> PFloat y,
                   ''width'' \<mapsto> PFloat w, ''height'' \<mapsto> PFloat h], q))))) p of
        (Inl e, p') \<Rightarrow>
          (Inl (parser_error p' ''draw rectangle requires 4 numbers: x y width height''), p')
      | (Inr ps, p') \<Rightarrow>
          (Inr ((Command DRAW_RECTANGLE ps)\<lparr>cmd_line := line0, cmd_col := col0\<rparr>), p'))"

definition parse_draw_command :: "parser \<Rightarrow> int \<Rightarrow> int \<Rightarrow> command presult" where
  "parse_draw_command p line0 col0 =
     (case current_token p of
        None \<Rightarrow> (Inl (parser_error p (''Expected shape type after '' @ quoted ''draw'')), p)
      | Some t \<Rightarrow>
          if tok_type t \<noteq> KEYWORD then
            (Inl (parser_error p (''Expected shape type after '' @ quoted ''draw'')), p)
          else
            (let shape_type = tok_value t; p1 = parser_advance p
             in if shape_type = ''line'' then parse_draw_line p1 line0 col0
                else if shape_type = ''circle'' then parse_draw_circle p1 line0 col0
                else if shape_type = ''rectangle'' then parse_draw_rectangle p1 line0 col0
                else (Inl (parser_error p1 (''Unknown shape type: '' @ shape_type)), p1)))"

definition parse_set_command :: "parser \<Rightarrow> int \<Rightarrow> int \<Rightarrow> command presult" where
  "parse_set_command p line0 col0 =
     (case current_token p of
        None \<Rightarrow> (Inl (parser_error p (''Expected '' @ quoted ''color'' @ '' after '' @ quoted ''set'')), p)
      | Some t \<Rightarrow>
          if tok_value t \<noteq> ''color'' then
            (Inl (parser_error p (''Expected '' @ quoted ''color'' @ '' after '' @ quoted ''set'')), p)
          else
            (let p1 = parser_advance p
             in case current_token p1 of
                  None \<Rightarrow> (Inl (parser_error p1 (''Expected color name after '' @ quoted ''set color'')), p1)
                | Some u \<Rightarrow>
                    if tok_type u \<noteq> COLOR \<and> tok_type u \<noteq> STRING then
                      (Inl (parser_error p1 (''Expected color name after '' @ quoted ''set color'')), p1)
                    else
                      (let color = tok_value u; p2 = parser_advance p1
                       in (Inr ((Command SET_COLOR [''color'' \<mapsto> PStr color])
                                  \<lparr>cmd_line := line0, cmd_col := col0\<rparr>), p2))))"

definition parse_clear_command :: "parser \<Rightarrow> int \<Rightarrow> int \<Rightarrow> command presult" where
  "parse_clear_command p line0 col0 =
     (Inr ((Command CLEAR Map.empty)\<lparr>cmd_line := line0, cmd_col := col0\<rparr>), p)"

definition parse_move_command :: "parser \<Rightarrow> int \<Rightarrow> int \<Rightarrow> command presult" where
  "parse_move_command p line0 col0 =
     (case and_then parse_number (\<lambda>x.
           and_then parse_number (\<lambda>y q.
             (Inr [''x'' \<mapsto> PFloat x, ''y'' \<mapsto> PFloat y], q))) p of
        (Inl e, p') \<Rightarrow> (Inl (parser_error p' ''move requires 2 numbers: x y''), p')
      | (Inr ps, p') \<Rightarrow> (Inr ((Command MOVE ps)\<lparr>cmd_line := line0, cmd_col := col0\<rparr>), p'))"

definition parse_pen_command :: "parser \<Rightarrow> int \<Rightarrow> int \<Rightarrow> command presult" where
  "parse_pen_command p line0 col0 =
     (case current_token p of
        None \<Rightarrow> (Inl (parser_error p (''Expected '' @ quoted ''up'' @ '' or '' @ quoted ''down'' @ '' after '' @ quoted ''pen'')), p)
      | Some t \<Rightarrow>
          (let action = tok_value t; p1 = parser_advance p
           in if action = ''up'' then
                (Inr ((Command PEN_UP Map.empty)\<lparr>cmd_line := line0, cmd_col := col0\<rparr>), p1)
              else if action = ''down'' then
                (Inr ((Command PEN_DOWN Map.empty)\<lparr>cmd_line := line0, cmd_col := col0\<rparr>), p1)
              else (Inl (parser_error p1 (''Expected '' @ quoted ''up'' @ '' or '' @ quoted ''down''
                                          @ '', got '' @ quoted action)), p1)))"

definition parse_command :: "parser \<Rightarrow> command presult" where
  "parse_command p =
     (case current_token p of
        None \<Rightarrow> (Inl (parser_error p ''Unexpected end of input''), p)
      | Some t \<Rightarrow>
          if tok_type t = EOF then (Inl (parser_error p ''Unexpected end of input''), p)
          else
            (let line0 = tok_line t; col0 = tok_col t
             in if tok_type t \<noteq> KEYWORD then
                  (Inl (parser_error p (''Expected command keyword, got ''
                                        @ token_type_name (tok_type t))), p)
                else
                  (let keyword = tok_value t; p1 = parser_advance p
                   in if keyword = ''draw'' then parse_draw_command p1 line0 col0
                      else if keyword = ''set'' then parse_set_command p1 line0 col0
                      else if keyword = ''clear'' then parse_clear_command p1 line0 col0
                      else if keyword = ''move'' then parse_move_command p1 line0 col0
                      else if keyword = ''pen'' then parse_pen_command p1 line0 col0
                      else (Inl (parser_error p1 (''Unknown command: '' @ keyword)), p1))))"

text \<open>The number of tokens still to be read; the top-level loop of the parser decreases it.\<close>

definition pending :: "parser \<Rightarrow> nat" where
  "pending p = (case current_token p of None \<Rightarrow> 0 | Some t \<Rightarrow> Suc (length (tokens p) - ppos p))"

definition shrinks :: "(parser \<Rightarrow> 'a presult) \<Rightarrow> bool" where
  "shrinks f = (\<forall>p r p'. f p = (r, p') \<longrightarrow> pending p' \<le> pending p)"

lemma pending_advance: "current_token p = Some t \<Longrightarrow> pending (parser_advance p) < pending p"
  by (auto simp: pending_def parser_advance_def Let_def)

lemma shrinksI: "(\<And>p r p'. f p = (r, p') \<Longrightarrow> pending p' \<le> pending p) \<Longrightarrow> shrinks f"
  by (simp add: shrinks_def)

lemma shrinksD: "shrinks f \<Longrightarrow> f p = (r, p') \<Longrightarrow> pending p' \<le> pending p"
  by (simp add: shrinks_def)

lemma shrinks_expect: "shrinks (\<lambda>p. expect p ty val)"
proof (rule shrinksI)
  fix p r p' assume "expect p ty val = (r, p')"
  then show "pending p' \<le> pending p"
    using pending_advance [of p]
    by (auto simp: expect_def split: option.splits if_splits dest!: less_imp_le)
qed

lemma shrinks_parse_number: "shrinks parse_number"
proof (rule shrinksI)
  fix p r p' assume a: "parse_number p = (r, p')"
  obtain r0 p0 where e: "expect p NUMBER None = (r0, p0)" by (cases "expect p NUMBER None")
  from a e have "p' = p0"
    by (auto simp: parse_number_def split: sum.splits error.splits)
  with shrinksD [OF shrinks_expect e] show "pending p' \<le> pending p" by simp
qed

lemma shrinks_and_then:
  assumes "shrinks f" "\<And>x. shrinks (g x)"
  shows "shrinks (and_then f g)"
proof (rule shrinksI)
  fix p r p' assume a: "and_then f g p = (r, p')"
  obtain r0 p0 where e: "f p = (r0, p0)" by (cases "f p")
  note le = shrinksD [OF assms(1) e]
  show "pending p' \<le> pending p"
  proof (cases r0)
    case (Inl err)
    with a e le show ?thesis by (simp add: and_then_def)
  next
    case (Inr x)
    with a e have "g x p0 = (r, p')" by (simp add: and_then_def)
    from shrinksD [OF assms(2) this] le show ?thesis by simp
  qed
qed

lemma shrinks_return: "shrinks (\<lambda>q. (Inr v, q))"
  by (simp add: shrinks_def)

lemma shrinks_handler:
  assumes "shrinks f"
  shows "shrinks (\<lambda>p. case f p of (Inl e, p') \<Rightarrow> (Inl (h p'), p') | (Inr x, p') \<Rightarrow> (Inr (k x), p'))"
proof (rule shrinksI)
  fix p r p'
  assume a: "(case f p of (Inl e, p') \<Rightarrow> (Inl (h p'), p') | (Inr x, p') \<Rightarrow> (Inr (k x), p')) = (r, p')"
  obtain r0 p0 where e: "f p = (r0, p0)" by (cases "f p")
  with a have "p' = p0" by (cases r0) auto
  with shrinksD [OF assms e] show "pending p' \<le> pending p" by simp
qed

lemma shrinks_parse_draw_line: "shrinks (\<lambda>p. parse_draw_line p l c)"
  unfolding parse_draw_line_def
  by (intro shrinks_handler shrinks_and_then shrinks_parse_number shrinks_return)

lemma shrinks_parse_draw_circle: "shrinks (\<lambda>p. parse_draw_circle p l c)"
  unfolding parse_draw_circle_def
  by (intro shrinks_handler shrinks_and_then shrinks_parse_number shrinks_return)

lemma shrinks_parse_draw_rectangle: "shrinks (\<lambda>p. parse_draw_rectangle p l c)"
  unfolding parse_draw_rectangle_def
  by (intro shrinks_handler shrinks_and_then shrinks_parse_number shrinks_return)

lemma shrinks_parse_move_command: "shrinks (\<lambda>p. parse_move_command p l c)"
  unfolding parse_move_command_def
  by (intro shrinks_handler shrinks_and_then shrinks_parse_number shrinks_return)

lemma shrinks_parse_draw_command: "shrinks (\<lambda>p. parse_draw_command p l c)"
proof (rule shrinksI)
  fix p r p' assume a: "parse_draw_command p l c = (r, p')"
  show "pending p' \<le> pending p"
  proof (cases "current_token p")
    case None
    with a show ?thesis by (simp add: parse_draw_command_def)
  next
    case (Some t)
    note adv = pending_advance [OF Some]
    from a Some
    have "p' = p \<or> p' = parser_advance p
          \<or> parse_draw_line (parser_advance p) l c = (r, p')
          \<or> parse_draw_circle (parser_advance p) l c = (r, p')
          \<or> parse_draw_rectangle (parser_advance p) l c = (r, p')"
      by (auto simp: parse_draw_command_def Let_def split: if_splits)
    with adv shrinksD [OF shrinks_parse_draw_line, of "parser_advance p" l c r p']
         shrinksD [OF shrinks_parse_draw_circle, of "parser_advance p" l c r p']
         shrinksD [OF shrinks_parse_draw_rectangle, of "parser_advance p" l c r p']
    show ?thesis by auto
  qed
qed

lemma shrinks_parse_set_command: "shrinks (\<lambda>p. parse_set_command p l c)"
proof (rule shrinksI)
  fix p r p' assume a: "parse_set_command p l c = (r, p')"
  show "pending p' \<le> pending p"
  proof (cases "current_token p")
    case None
    with a show ?thesis by (simp add: parse_set_command_def)
  next
    case (Some t)
    note t = this
    note adv = pending_advance [OF Some]
    show ?thesis
    proof (cases "current_token (parser_advance p)")
      case None
      with a t adv show ?thesis
        by (auto simp: parse_set_command_def Let_def split: if_splits)
    next
      case (Some u)
      with a t adv pending_advance [OF Some] show ?thesis
        by (auto simp: parse_set_command_def Let_def split: if_splits)
    qed
  qed
qed

lemma shrinks_parse_pen_command: "shrinks (\<lambda>p. parse_pen_command p l c)"
proof (rule shrinksI)
  fix p r p' assume a: "parse_pen_command p l c = (r, p')"
  then show "pending p' \<le> pending p"
    using pending_advance [of p]
    by (auto simp: parse_pen_command_def Let_def split: option.splits if_splits dest!: less_imp_le)
qed

lemma parse_command_progress:
  assumes "parse_command p = (Inr c, p')"
  shows "pending p' < pending p"
proof (cases "current_token p")
  case None
  with assms show ?thesis by (simp add: parse_command_def)
next
  case (Some t)
  note adv = pending_advance [OF Some]
  let ?q = "parser_advance p"
  let ?l = "tok_line t" and ?c = "tok_col t"
  from assms Some
  have "parse_draw_command ?q ?l ?c = (Inr c, p') \<or> parse_set_command ?q ?l ?c = (Inr c, p')
        \<or> parse_clear_command ?q ?l ?c = (Inr c, p') \<or> parse_move_command ?q ?l ?c = (Inr c, p')
        \<or> parse_pen_command ?q ?l ?c = (Inr c, p')"
    by (auto simp: parse_command_def Let_def split: if_splits)
  moreover have "parse_clear_command ?q ?l ?c = (Inr c, p') \<Longrightarrow> p' = ?q"
    by (simp add: parse_clear_command_def)
  ultimately have "pending p' \<le> pending ?q"
    using shrinksD [OF shrinks_parse_draw_command, of ?q ?l ?c "Inr c" p']
          shrinksD [OF shrinks_parse_set_command, of ?q ?l ?c "Inr c" p']
          shrinksD [OF shrinks_parse_move_command, of ?q ?l ?c "Inr c" p']
          shrinksD [OF shrinks_parse_pen_command, of ?q ?l ?c "Inr c" p']
    by auto
  with adv show ?thesis by simp
qed

function parse_loop :: "parser \<Rightarrow> command list \<Rightarrow> error + command list" where
  "parse_loop p commands =
     (case current_token p of
        None \<Rightarrow> Inr commands
      | Some t \<Rightarrow>
          if tok_type t = EOF then Inr commands
          else (case parse_command p of
                  (Inl e, p') \<Rightarrow> Inl e
                | (Inr command, p') \<Rightarrow> parse_loop p' (commands @ [command])))"
  by pat_completeness auto
termination
  by (relation "measure (\<lambda>(p, cs). pending p)") (auto simp: parse_command_progress [OF sym])

declare parse_loop.simps [simp del]

definition parse :: "token list \<Rightarrow> error + command list" where
  "parse toks = parse_loop (Parser toks) []"

section \<open>Executor (executor.py)\<close>

text \<open>
  The drawing surface is a tkinter canvas, outside this repository. It is modelled as the
  record of the calls made on it, in order; a canvas whose widget has been destroyed raises
  \<open>TclError\<close> on every call and records nothing.
\<close>

datatype canvas_call =
    CreateLine int int int int string int
  | CreateOval int int int int string string int
  | CreateRectangle int int int int string string int
  | DeleteAll

record canvas =
  calls :: "canvas_call list"
  destroyed :: bool

definition canvas_do :: "canvas \<Rightarrow> canvas_call \<Rightarrow> error + canvas" where
  "canvas_do cv c =
     (if destroyed cv then Inl (TclError ''invalid command name'')
      else Inr (cv\<lparr>calls := calls cv @ [c]\<rparr>))"

record executor =
  canvas :: canvas
  width :: int
  height :: int
  current_color :: string
  pen_x :: int
  pen_y :: int
  pen_down :: bool
  fill_mode :: bool

definition DrawingExecutor :: "canvas \<Rightarrow> int \<Rightarrow> int \<Rightarrow> executor" where
  "DrawingExecutor cv w h =
     \<lparr>canvas = cv, width = w, height = h, current_color = ''#000000'',
      pen_x = w div 2, pen_y = h div 2, pen_down = True, fill_mode = False\<rparr>"

definition COLOR_MAP :: "string \<rightharpoonup> string" where
  "COLOR_MAP = map_of
     [(''red'', ''#FF0000''), (''green'', ''#00FF00''), (''blue'', ''#0000FF''),
      (''yellow'', ''#FFFF00''), (''orange'', ''#FFA500''), (''purple'', ''#800080''),
      (''pink'', ''#FFC0CB''), (''black'', ''#000000''), (''white'', ''#FFFFFF''),
      (''gray'', ''#808080''), (''grey'', ''#808080''), (''brown'', ''#A52A2A''),
      (''cyan'', ''#00FFFF''), (''magenta'', ''#FF00FF'')]"

text \<open>
  \<open>get_color\<close> calls \<open>color_name.lower()\<close>: a value that is not a string has no such
  method and raises \<open>AttributeError\<close>.
\<close>

definition get_color :: "pyval \<Rightarrow> error + string" where
  "get_color color_name =
     (case color_name of
        PStr s \<Rightarrow> Inr (case COLOR_MAP (lower s) of Some v \<Rightarrow> v | None \<Rightarrow> ''#000000'')
      | PFloat f \<Rightarrow> Inl (AttributeError (quoted ''float'' @ '' object has no attribute ''
                                           @ quoted ''lower''))
      | PInt i \<Rightarrow> Inl (AttributeError (quoted ''int'' @ '' object has no attribute ''
                                         @ quoted ''lower'')))"

text \<open>\<open>int(params.get(key, default))\<close> with an integer default.\<close>

definition int_param :: "(string \<rightharpoonup> pyval) \<Rightarrow> string \<Rightarrow> int \<Rightarrow> error + int" where
  "int_param ps key dflt = py_int (case ps key of Some v \<Rightarrow> v | None \<Rightarrow> PInt dflt)"

text \<open>A step that may raise, followed by the rest of the method.\<close>

definition or_raise :: "error + 'a \<Rightarrow> ('a \<Rightarrow> error + 'b) \<Rightarrow> error + 'b" where
  "or_raise r f = (case r of Inl e \<Rightarrow> Inl e | Inr v \<Rightarrow> f v)"

text \<open>\<open>str(v)\<close> inside an f-string, for the values a message of the executor formats.\<close>

definition point_str :: "int \<Rightarrow> int \<Rightarrow> string" where
  "point_str x y = ''('' @ str_int x @ '', '' @ str_int y @ '')''"

definition execute_draw_line :: "executor \<Rightarrow> (string \<rightharpoonup> pyval) \<Rightarrow> error + (executor \<times> string)" where
  "execute_draw_line ex ps =
     or_raise (int_param ps ''x1'' 0) (\<lambda>x1.
     or_raise (int_param ps ''y1'' 0) (\<lambda>y1.
     or_raise (int_param ps ''x2'' 0) (\<lambda>x2.
     or_raise (int_param ps ''y2'' 0) (\<lambda>y2.
     or_raise (canvas_do (canvas ex) (CreateLine x1 y1 x2 y2 (current_color ex) 2)) (\<lambda>cv.
       (let ex1 = ex\<lparr>canvas := cv\<rparr>;
            ex2 = (if pen_down ex1 then ex1\<lparr>pen_x := x2, pen_y := y2\<rparr> else ex1)
        in Inr (ex2, ''Drew line from '' @ point_str x1 y1 @ '' to '' @ point_str x2 y2)))))))"

definition execute_draw_circle :: "executor \<Rightarrow> (string \<rightharpoonup> pyval) \<Rightarrow> error + (executor \<times> string)" where
  "execute_draw_circle ex ps =
     or_raise (int_param ps ''x'' 0) (\<lambda>x.
     or_raise (int_param ps ''y'' 0) (\<lambda>y.
     or_raise (int_param ps ''radius'' 10) (\<lambda>radius.
       (let x1 = x - radius; y1 = y - radius; x2 = x + radius; y2 = y + radius
        in or_raise
             (if fill_mode ex
              then canvas_do (canvas ex)
                     (CreateOval x1 y1 x2 y2 (current_color ex) (current_color ex) 2)
              else canvas_do (canvas ex) (CreateOval x1 y1 x2 y2 (current_color ex) [] 2))
             (\<lambda>cv.
               (let ex1 = ex\<lparr>canvas := cv\<rparr>;
                    ex2 = (if pen_down ex1 then ex1\<lparr>pen_x := x, pen_y := y\<rparr> else ex1)
                in Inr (ex2, ''Drew circle at '' @ point_str x y @ '' with radius ''
                             @ str_int radius)))))))"

definition execute_draw_rectangle :: "executor \<Rightarrow> (string \<rightharpoonup> pyval) \<Rightarrow> error + (executor \<times> string)"
  where
  "execute_draw_rectangle ex ps =
     or_raise (int_param ps ''x'' 0) (\<lambda>x.
     or_raise (int_param ps ''y'' 0) (\<lambda>y.
     or_raise (int_param ps ''width'' 10) (\<lambda>w.
     or_raise (int_param ps ''height'' 10) (\<lambda>h.
       (let x1 = x; y1 = y; x2 = x + w; y2 = y + h
        in or_raise
             (if fill_mode ex
              then canvas_do (canvas ex)
                     (CreateRectangle x1 y1 x2 y2 (current_color ex) (current_color ex) 2)
              else canvas_do (canvas ex) (CreateRectangle x1 y1 x2 y2 (current_color ex) [] 2))
             (\<lambda>cv.
               (let ex1 = ex\<lparr>canvas := cv\<rparr>;
                    ex2 = (if pen_down ex1 then ex1\<lparr>pen_x := x2, pen_y := y2\<rparr> else ex1)
                in Inr (ex2, ''Drew rectangle at '' @ point_str x y @ '' with size ''
                             @ str_int w @ ''x'' @ str_int h))))))))"

text \<open>
  The message of \<open>execute_set_color\<close> formats \<open>color_name\<close>; only a string reaches that
  point, since \<open>get_color\<close> has raised for any other value.
\<close>

definition execute_set_color :: "executor \<Rightarrow> (string \<rightharpoonup> pyval) \<Rightarrow> error + (executor \<times> string)" where
  "execute_set_color ex ps =
     (let color_name = (case ps ''color'' of Some v \<Rightarrow> v | None \<Rightarrow> PStr ''black'')
      in or_raise (get_color color_name) (\<lambda>c.
           Inr (ex\<lparr>current_color := c\<rparr>,
                ''Color set to '' @ (case color_name of PStr s \<Rightarrow> s | PInt i \<Rightarrow> str_int i
                                       | PFloat f \<Rightarrow> []))))"

definition execute_clear :: "executor \<Rightarrow> error + (executor \<times> string)" where
  "execute_clear ex =
     or_raise (canvas_do (canvas ex) DeleteAll) (\<lambda>cv.
       Inr (ex\<lparr>canvas := cv\<rparr>, ''Canvas cleared''))"

definition execute_move :: "executor \<Rightarrow> (string \<rightharpoonup> pyval) \<Rightarrow> error + (executor \<times> string)" where
  "execute_move ex ps =
     or_raise (int_param ps ''x'' 0) (\<lambda>x.
     or_raise (int_param ps ''y'' 0) (\<lambda>y.
     or_raise
       (if pen_down ex
        then canvas_do (canvas ex) (CreateLine (pen_x ex) (pen_y ex) x y (current_color ex) 2)
        else Inr (canvas ex))
       (\<lambda>cv. Inr (ex\<lparr>canvas := cv, pen_x := x, pen_y := y\<rparr>,
                   ''Pen moved to '' @ point_str x y))))"

definition execute_pen_up :: "executor \<Rightarrow> error + (executor \<times> string)" where
  "execute_pen_up ex = Inr (ex\<lparr>pen_down := False\<rparr>, ''Pen lifted'')"

definition execute_pen_down :: "executor \<Rightarrow> error + (executor \<times> string)" where
  "execute_pen_down ex = Inr (ex\<lparr>pen_down := True\<rparr>, ''Pen lowered'')"

text \<open>
  The body of the \<open>try\<close> block of \<open>execute\<close>. No method changes the executor before its
  last step that may raise, so a raise leaves the executor as it was.
\<close>

definition execute_try :: "executor \<Rightarrow> command \<Rightarrow> error + (executor \<times> string)" where
  "execute_try ex cmd =
     (if command_type cmd = DRAW_LINE then execute_draw_line ex (params cmd)
      else if command_type cmd = DRAW_CIRCLE then execute_draw_circle ex (params cmd)
      else if command_type cmd = DRAW_RECTANGLE then execute_draw_rectangle ex (params cmd)
      else if command_type cmd = SET_COLOR then execute_set_color ex (params cmd)
      else if command_type cmd = CLEAR then execute_clear ex
      else if command_type cmd = MOVE then execute_move ex (params cmd)
      else if command_type cmd = PEN_UP then execute_pen_up ex
      else if command_type cmd = PEN_DOWN then execute_pen_down ex
      else Inr (ex, ''Error: Unknown command type: CommandType.''
                    @ command_type_name (command_type cmd)))"

definition execute :: "executor \<Rightarrow> command \<Rightarrow> executor \<times> string" where
  "execute ex cmd =
     (case execute_try ex cmd of
        Inr r \<Rightarrow> r
      | Inl e \<Rightarrow> (ex, ''Error executing command: '' @ error_str e))"

text \<open>
  The loop of the host (\<open>execute_commands\<close> in interpreter.py): every command of the list is
  handed to \<open>execute\<close> in order and its result message is collected.
\<close>

fun execute_all :: "executor \<Rightarrow> command list \<Rightarrow> executor \<times> string list" where
  "execute_all ex [] = (ex, [])"
| "execute_all ex (cmd # cmds) =
     (let (ex1, result) = execute ex cmd;
          (ex2, results) = execute_all ex1 cmds
      in (ex2, result # results))"

section \<open>Notions used in the statements\<close>

text \<open>The pen position of an executor, as a point.\<close>

definition pen :: "executor \<Rightarrow> int \<times> int" where
  "pen ex = (pen_x ex, pen_y ex)"



section \<open>Properties of the executor\<close>

lemma or_raise_Inr [simp]: "or_raise (Inr v) f = f v"
  by (simp add: or_raise_def)

lemma or_raise_Inl [simp]: "or_raise (Inl e) f = Inl e"
  by (simp add: or_raise_def)

lemma or_raise_eq_Inr:
  "or_raise r f = Inr y \<longleftrightarrow> (\<exists>v. r = Inr v \<and> f v = Inr y)"
  by (cases r) auto











lemmas exec_defs = execute_def execute_try_def execute_draw_line_def execute_draw_circle_def
  execute_draw_rectangle_def execute_set_color_def execute_clear_def execute_move_def
  execute_pen_up_def execute_pen_down_def int_param_def py_int_def canvas_do_def
  DrawingExecutor_def Command_def point_str_def str_int_def str_nat.simps get_color_def
  COLOR_MAP_def lower_def lower_char_def isupper_def code_point_def Let_def pen_def




lemma execute_cases:
  "(\<exists>ex' msg. execute_try ex cmd = Inr (ex', msg) \<and> execute ex cmd = (ex', msg))
   \<or> (\<exists>e. execute_try ex cmd = Inl e
          \<and> execute ex cmd = (ex, ''Error executing command: '' @ error_str e))"
  by (cases "execute_try ex cmd") (auto simp: execute_def)

lemma execute_all_Cons:
  "execute_all ex (cmd # cmds) =
     (fst (execute_all (fst (execute ex cmd)) cmds),
      snd (execute ex cmd) # snd (execute_all (fst (execute ex cmd)) cmds))"
  by (simp add: Let_def split_beta)

lemma execute_all_length: "length (snd (execute_all ex cmds)) = length cmds"
  by (induction cmds arbitrary: ex) (simp_all add: Let_def split_beta)

lemma execute_all_append:
  "execute_all ex (cs1 @ cs2) =
     (let (ex1, r1) = execute_all ex cs1; (ex2, r2) = execute_all ex1 cs2 in (ex2, r1 @ r2))"
  by (induction cs1 arbitrary: ex) (simp_all add: Let_def split_beta)

text \<open>
  C2. \<open>execute\<close> always returns: either the command ran and its result is returned, or the
  fault it raised is turned into the message \<open>Error executing command: ...\<close> and the
  executor is left as it was. Every command of a list gets one result, and the commands
  after a faulting one are executed from the state the faulting command was given.
\<close>

theorem execute_contains_faults:
  "((\<exists>ex' msg. execute_try ex cmd = Inr (ex', msg) \<and> execute ex cmd = (ex', msg))
    \<or> (\<exists>e. execute_try ex cmd = Inl e
          \<and> execute ex cmd = (ex, ''Error executing command: '' @ error_str e)))
   \<and> length (snd (execute_all ex (before @ cmd # after))) = length before + 1 + length after
   \<and> (\<forall>e. execute_try (fst (execute_all ex before)) cmd = Inl e \<longrightarrow>
         execute_all ex (before @ cmd # after) =
           (fst (execute_all (fst (execute_all ex before)) after),
            snd (execute_all ex before) @ [''Error executing command: '' @ error_str e]
            @ snd (execute_all (fst (execute_all ex before)) after)))"
proof (intro conjI allI impI)
  show "(\<exists>ex' msg. execute_try ex cmd = Inr (ex', msg) \<and> execute ex cmd = (ex', msg))
    \<or> (\<exists>e. execute_try ex cmd = Inl e
          \<and> execute ex cmd = (ex, ''Error executing command: '' @ error_str e))"
    by (rule execute_cases)
  show "length (snd (execute_all ex (before @ cmd # after))) = length before + 1 + length after"
    by (simp add: execute_all_length)
next
  fix e assume "execute_try (fst (execute_all ex before)) cmd = Inl e"
  then show "execute_all ex (before @ cmd # after) =
           (fst (execute_all (fst (execute_all ex before)) after),
            snd (execute_all ex before) @ [''Error executing command: '' @ error_str e]
            @ snd (execute_all (fst (execute_all ex before)) after))"
    by (simp add: execute_all_append execute_def Let_def split_beta)
qed

theorem execute_contains_faults_witness:
  "execute_all (DrawingExecutor \<lparr>calls = [], destroyed = False\<rparr> 800 600)
     ([] @ Command MOVE [''x'' \<mapsto> PFloat NaN, ''y'' \<mapsto> PFloat (Finite 10)]
         # [Command PEN_UP Map.empty])
   = ((DrawingExecutor \<lparr>calls = [], destroyed = False\<rparr> 800 600)\<lparr>pen_down := False\<rparr>,
      [''Error executing command: cannot convert float NaN to integer'', ''Pen lifted''])"
  using execute_contains_faults [of "DrawingExecutor \<lparr>calls = [], destroyed = False\<rparr> 800 600"
      "Command MOVE [''x'' \<mapsto> PFloat NaN, ''y'' \<mapsto> PFloat (Finite 10)]" "[]"
      "[Command PEN_UP Map.empty]"]
  by (simp add: exec_defs)













text \<open>A call on the canvas that fills nothing: an oval or a rectangle with an empty fill.\<close>

fun outlined :: "canvas_call \<Rightarrow> bool" where
  "outlined (CreateOval x1 y1 x2 y2 outline fill w) = (fill = [])"
| "outlined (CreateRectangle x1 y1 x2 y2 outline fill w) = (fill = [])"
| "outlined c = True"

text \<open>
  What a command that has run may have done to the fill mode and to the canvas: the fill
  mode is as before, and the canvas is as before or has received one more call, which fills
  nothing unless the fill mode was set.
\<close>

definition effect :: "executor \<Rightarrow> executor \<Rightarrow> bool" where
  "effect ex ex' =
     (fill_mode ex' = fill_mode ex
      \<and> (canvas ex' = canvas ex
         \<or> (\<exists>c. canvas_do (canvas ex) c = Inr (canvas ex') \<and> (\<not> fill_mode ex \<longrightarrow> outlined c))))"

lemma effectI:
  "canvas_do (canvas ex) c = Inr cv \<Longrightarrow> \<not> fill_mode ex \<longrightarrow> outlined c \<Longrightarrow> canvas ex' = cv \<Longrightarrow>
     fill_mode ex' = fill_mode ex \<Longrightarrow> effect ex ex'"
  by (auto simp: effect_def)

lemma effect_draw_line:
  assumes "execute_draw_line ex ps = Inr (ex', msg)"
  shows "effect ex ex'"
proof -
  from assms obtain x1 y1 x2 y2 cv where
    cv: "canvas_do (canvas ex) (CreateLine x1 y1 x2 y2 (current_color ex) 2) = Inr cv"
    and ex': "ex' = (if pen_down ex then ex\<lparr>canvas := cv, pen_x := x2, pen_y := y2\<rparr>
                     else ex\<lparr>canvas := cv\<rparr>)"
    unfolding execute_draw_line_def or_raise_eq_Inr Let_def by auto
  from ex' have "canvas ex' = cv" "fill_mode ex' = fill_mode ex" by simp_all
  with cv show ?thesis by (intro effectI [OF cv]) simp_all
qed

lemma effect_draw_circle:
  assumes "execute_draw_circle ex ps = Inr (ex', msg)"
  shows "effect ex ex'"
proof -
  from assms obtain x y r cv where
    cv: "(if fill_mode ex
          then canvas_do (canvas ex)
                 (CreateOval (x - r) (y - r) (x + r) (y + r) (current_color ex) (current_color ex) 2)
          else canvas_do (canvas ex)
                 (CreateOval (x - r) (y - r) (x + r) (y + r) (current_color ex) [] 2)) = Inr cv"
    and ex': "ex' = (if pen_down ex then ex\<lparr>canvas := cv, pen_x := x, pen_y := y\<rparr>
                     else ex\<lparr>canvas := cv\<rparr>)"
    unfolding execute_draw_circle_def or_raise_eq_Inr Let_def by auto
  from ex' have a: "canvas ex' = cv" "fill_mode ex' = fill_mode ex" by simp_all
  show ?thesis
  proof (cases "fill_mode ex")
    case True
    with cv have "canvas_do (canvas ex) (CreateOval (x - r) (y - r) (x + r) (y + r) (current_color ex) (current_color ex) 2) = Inr cv"
      by simp
    from effectI [OF this] True a show ?thesis by simp
  next
    case False
    with cv have "canvas_do (canvas ex) (CreateOval (x - r) (y - r) (x + r) (y + r) (current_color ex) [] 2) = Inr cv"
      by simp
    from effectI [OF this] a show ?thesis by simp
  qed
qed

lemma effect_draw_rectangle:
  assumes "execute_draw_rectangle ex ps = Inr (ex', msg)"
  shows "effect ex ex'"
proof -
  from assms obtain x y w h cv where
    cv: "(if fill_mode ex
          then canvas_do (canvas ex)
                 (CreateRectangle x y (x + w) (y + h) (current_color ex) (current_color ex) 2)
          else canvas_do (canvas ex)
                 (CreateRectangle x y (x + w) (y + h) (current_color ex) [] 2)) = Inr cv"
    and ex': "ex' = (if pen_down ex then ex\<lparr>canvas := cv, pen_x := x + w, pen_y := y + h\<rparr>
                     else ex\<lparr>canvas := cv\<rparr>)"
    unfolding execute_draw_rectangle_def or_raise_eq_Inr Let_def by auto
  from ex' have a: "canvas ex' = cv" "fill_mode ex' = fill_mode ex" by simp_all
  show ?thesis
  proof (cases "fill_mode ex")
    case True
    with cv have "canvas_do (canvas ex) (CreateRectangle x y (x + w) (y + h) (current_color ex) (current_color ex) 2) = Inr cv"
      by simp
    from effectI [OF this] True a show ?thesis by simp
  next
    case False
    with cv have "canvas_do (canvas ex) (CreateRectangle x y (x + w) (y + h) (current_color ex) [] 2) = Inr cv"
      by simp
    from effectI [OF this] a show ?thesis by simp
  qed
qed

lemma effect_set_color: "execute_set_color ex ps = Inr (ex', msg) \<Longrightarrow> effect ex ex'"
  unfolding execute_set_color_def or_raise_eq_Inr Let_def effect_def
  by auto

lemma effect_clear:
  assumes "execute_clear ex = Inr (ex', msg)"
  shows "effect ex ex'"
proof -
  from assms obtain cv where cv: "canvas_do (canvas ex) DeleteAll = Inr cv"
    and ex': "ex' = ex\<lparr>canvas := cv\<rparr>"
    unfolding execute_clear_def or_raise_eq_Inr by auto
  then show ?thesis by (intro effectI [OF cv]) simp_all
qed

lemma effect_move:
  assumes "execute_move ex ps = Inr (ex', msg)"
  shows "effect ex ex'"
proof -
  from assms obtain x y cv where
    cv: "(if pen_down ex
          then canvas_do (canvas ex) (CreateLine (pen_x ex) (pen_y ex) x y (current_color ex) 2)
          else Inr (canvas ex)) = Inr cv"
    and ex': "ex' = ex\<lparr>canvas := cv, pen_x := x, pen_y := y\<rparr>"
    unfolding execute_move_def or_raise_eq_Inr by auto
  show ?thesis
  proof (cases "pen_down ex")
    case True
    with cv have "canvas_do (canvas ex) (CreateLine (pen_x ex) (pen_y ex) x y (current_color ex) 2)
                  = Inr cv"
      by simp
    from effectI [OF this] ex' show ?thesis by simp
  next
    case False
    with cv ex' show ?thesis by (simp add: effect_def)
  qed
qed

lemma effect_pen: "execute_pen_up ex = Inr (ex', msg) \<Longrightarrow> effect ex ex'"
  "execute_pen_down ex = Inr (ex', msg) \<Longrightarrow> effect ex ex'"
  by (auto simp: execute_pen_up_def execute_pen_down_def effect_def)

lemma effect_execute_try:
  assumes "execute_try ex cmd = Inr (ex', msg)"
  shows "effect ex ex'"
proof (cases "command_type cmd")
  case FILL
  with assms show ?thesis by (auto simp: execute_try_def effect_def)
qed (use assms effect_draw_line effect_draw_circle effect_draw_rectangle effect_set_color
       effect_clear effect_move effect_pen in \<open>simp_all add: execute_try_def\<close>)

lemma execute_try_fill_mode:
  assumes "execute_try ex cmd = Inr (ex', msg)"
  shows "fill_mode ex' = fill_mode ex"
  using effect_execute_try [OF assms] by (simp add: effect_def)

lemma execute_fill_mode: "fill_mode (fst (execute ex cmd)) = fill_mode ex"
  using execute_cases [of ex cmd] execute_try_fill_mode [of ex cmd] by auto

lemma execute_all_fill_mode: "fill_mode (fst (execute_all ex cmds)) = fill_mode ex"
  by (induction cmds arbitrary: ex) (simp_all add: Let_def split_beta execute_fill_mode)

lemma canvas_do_outlined:
  "canvas_do cv c = Inr cv' \<Longrightarrow> outlined c \<Longrightarrow> \<forall>x \<in> set (calls cv). outlined x \<Longrightarrow>
     \<forall>x \<in> set (calls cv'). outlined x"
  by (auto simp: canvas_do_def split: if_splits)

lemma execute_try_outlined:
  assumes "execute_try ex cmd = Inr (ex', msg)" "\<not> fill_mode ex"
    "\<forall>x \<in> set (calls (canvas ex)). outlined x"
  shows "\<forall>x \<in> set (calls (canvas ex')). outlined x"
proof -
  have "canvas ex' = canvas ex \<or> (\<exists>c. outlined c \<and> canvas_do (canvas ex) c = Inr (canvas ex'))"
    using effect_execute_try [OF assms(1)] assms(2) by (auto simp: effect_def)
  with assms(3) canvas_do_outlined show ?thesis by metis
qed

lemma execute_outlined:
  assumes "\<not> fill_mode ex" "\<forall>x \<in> set (calls (canvas ex)). outlined x"
  shows "\<forall>x \<in> set (calls (canvas (fst (execute ex cmd)))). outlined x"
  using execute_cases [of ex cmd] execute_try_outlined [of ex cmd] assms by auto

lemma execute_all_outlined:
  "\<not> fill_mode ex \<Longrightarrow> \<forall>x \<in> set (calls (canvas ex)). outlined x \<Longrightarrow>
     \<forall>x \<in> set (calls (canvas (fst (execute_all ex cmds)))). outlined x"
proof (induction cmds arbitrary: ex)
  case Nil
  then show ?case by simp
next
  case (Cons c cs)
  from Cons.prems have "\<not> fill_mode (fst (execute ex c))" by (simp add: execute_fill_mode)
  moreover from Cons.prems have "\<forall>x \<in> set (calls (canvas (fst (execute ex c)))). outlined x"
    by (rule execute_outlined)
  ultimately show ?case using Cons.IH [of "fst (execute ex c)"]
    by (simp add: Let_def split_beta)
qed

text \<open>The message of the fallback branch of \<open>execute\<close>.\<close>

definition unknown_message :: "string \<Rightarrow> bool" where
  "unknown_message msg = (take 29 msg = ''Error: Unknown command type: '')"

lemma known_draw_line: "execute_draw_line ex ps = Inr (ex', msg) \<Longrightarrow> \<not> unknown_message msg"
  unfolding execute_draw_line_def or_raise_eq_Inr Let_def unknown_message_def by auto

lemma known_draw_circle: "execute_draw_circle ex ps = Inr (ex', msg) \<Longrightarrow> \<not> unknown_message msg"
  unfolding execute_draw_circle_def or_raise_eq_Inr Let_def unknown_message_def by auto

lemma known_draw_rectangle:
  "execute_draw_rectangle ex ps = Inr (ex', msg) \<Longrightarrow> \<not> unknown_message msg"
  unfolding execute_draw_rectangle_def or_raise_eq_Inr Let_def unknown_message_def by auto

lemma known_set_color: "execute_set_color ex ps = Inr (ex', msg) \<Longrightarrow> \<not> unknown_message msg"
  unfolding execute_set_color_def or_raise_eq_Inr Let_def unknown_message_def by auto

lemma known_clear: "execute_clear ex = Inr (ex', msg) \<Longrightarrow> \<not> unknown_message msg"
  unfolding execute_clear_def or_raise_eq_Inr unknown_message_def by auto

lemma known_move: "execute_move ex ps = Inr (ex', msg) \<Longrightarrow> \<not> unknown_message msg"
  unfolding execute_move_def or_raise_eq_Inr unknown_message_def by auto

lemma known_pen: "execute_pen_up ex = Inr (ex', msg) \<Longrightarrow> \<not> unknown_message msg"
  "execute_pen_down ex = Inr (ex', msg) \<Longrightarrow> \<not> unknown_message msg"
  by (auto simp: execute_pen_up_def execute_pen_down_def unknown_message_def)

lemma execute_try_known:
  assumes "command_type cmd \<noteq> FILL" "execute_try ex cmd = Inr (ex', msg)"
  shows "\<not> unknown_message msg"
  using assms known_draw_line known_draw_circle known_draw_rectangle known_set_color
    known_clear known_move known_pen
  by (cases "command_type cmd") (simp_all add: execute_try_def)

lemma execute_known:
  assumes "command_type cmd \<noteq> FILL"
  shows "\<not> unknown_message (snd (execute ex cmd))"
  using execute_cases [of ex cmd] execute_try_known [OF assms, of ex] 
  by (auto simp: unknown_message_def)

lemma execute_unknown:
  "command_type cmd = FILL \<Longrightarrow> unknown_message (snd (execute ex cmd))"
  by (simp add: execute_def execute_try_def unknown_message_def)

section \<open>Properties of the parser\<close>

text \<open>The current token of a parser is the token at its position, or none past the end.\<close>

definition parser_ok :: "parser \<Rightarrow> bool" where
  "parser_ok p =
     (current_token p = (if ppos p < length (tokens p) then Some (tokens p ! ppos p) else None))"

text \<open>A rule leaves the token list alone and returns the parser it was given or one it has advanced.\<close>

definition moved :: "parser \<Rightarrow> parser \<Rightarrow> bool" where
  "moved p p' = (tokens p' = tokens p \<and> (p' = p \<or> parser_ok p'))"


text \<open>The first \<open>n\<close> rounds of the loop of \<open>parse\<close>, when each of them parses a command.\<close>

fun parse_n :: "nat \<Rightarrow> parser \<Rightarrow> command list \<Rightarrow> (command list \<times> parser) option" where
  "parse_n 0 p commands = Some (commands, p)"
| "parse_n (Suc n) p commands =
     (case current_token p of
        None \<Rightarrow> None
      | Some t \<Rightarrow>
          if tok_type t = EOF then None
          else (case parse_command p of
                  (Inl e, p') \<Rightarrow> None
                | (Inr command, p') \<Rightarrow> parse_n n p' (commands @ [command])))"

















text \<open>
  What a rule returns: a command of the given kind, or an error built by \<open>Parser.error\<close> in
  the state the rule has reached.
\<close>

definition makes :: "command_type \<Rightarrow> command presult \<Rightarrow> bool" where
  "makes ty r = (case r of (Inl e, p') \<Rightarrow> (\<exists>msg. e = parser_error p' msg)
                         | (Inr c, p') \<Rightarrow> command_type c = ty)"

lemma makes_handler:
  "makes ty (case r0 of (Inl e, p') \<Rightarrow> (Inl (parser_error p' m), p')
                      | (Inr ps, p') \<Rightarrow> (Inr ((Command ty ps)\<lparr>cmd_line := l, cmd_col := c\<rparr>), p'))"
  by (cases r0; cases "fst r0") (auto simp: makes_def Command_def)

lemma makes_parse_draw_line: "makes DRAW_LINE (parse_draw_line p l c)"
  unfolding parse_draw_line_def by (rule makes_handler)

lemma makes_parse_draw_circle: "makes DRAW_CIRCLE (parse_draw_circle p l c)"
  unfolding parse_draw_circle_def by (rule makes_handler)

lemma makes_parse_draw_rectangle: "makes DRAW_RECTANGLE (parse_draw_rectangle p l c)"
  unfolding parse_draw_rectangle_def by (rule makes_handler)

lemma makes_parse_move_command: "makes MOVE (parse_move_command p l c)"
  unfolding parse_move_command_def by (rule makes_handler)


text \<open>The command kinds that a parser rule builds.\<close>

definition produced :: "command_type set" where
  "produced = {DRAW_LINE, DRAW_CIRCLE, DRAW_RECTANGLE, SET_COLOR, CLEAR, MOVE, PEN_UP, PEN_DOWN}"

definition well_formed :: "command presult \<Rightarrow> bool" where
  "well_formed r = (case r of (Inl e, p') \<Rightarrow> (\<exists>msg. e = parser_error p' msg)
                            | (Inr c, p') \<Rightarrow> command_type c \<in> produced)"

lemma makes_well_formed: "makes ty r \<Longrightarrow> ty \<in> produced \<Longrightarrow> well_formed r"
  by (auto simp: makes_def well_formed_def split: prod.splits sum.splits)

lemma well_formed_error [simp]: "well_formed (Inl (parser_error p m), p)"
  by (auto simp: well_formed_def)

lemma well_formed_Command [simp]:
  "well_formed (Inr ((Command ty ps)\<lparr>cmd_line := l, cmd_col := c\<rparr>), p) \<longleftrightarrow> ty \<in> produced"
  by (simp add: well_formed_def Command_def)

lemma well_formed_parse_draw_command: "well_formed (parse_draw_command p l c)"
  using makes_well_formed [OF makes_parse_draw_line, of "parser_advance p" l c]
        makes_well_formed [OF makes_parse_draw_circle, of "parser_advance p" l c]
        makes_well_formed [OF makes_parse_draw_rectangle, of "parser_advance p" l c]
  by (simp add: parse_draw_command_def Let_def produced_def split: option.splits)

lemma well_formed_parse_set_command: "well_formed (parse_set_command p l c)"
  by (simp add: parse_set_command_def Let_def produced_def split: option.splits)

lemma well_formed_parse_clear_command: "well_formed (parse_clear_command p l c)"
  by (simp add: parse_clear_command_def produced_def)

lemma well_formed_parse_move_command: "well_formed (parse_move_command p l c)"
  using makes_well_formed [OF makes_parse_move_command] by (simp add: produced_def)

lemma well_formed_parse_pen_command: "well_formed (parse_pen_command p l c)"
  by (simp add: parse_pen_command_def Let_def produced_def split: option.splits)

lemma well_formed_parse_command: "well_formed (parse_command p)"
  using well_formed_parse_draw_command well_formed_parse_set_command
    well_formed_parse_clear_command well_formed_parse_move_command well_formed_parse_pen_command
  by (simp add: parse_command_def Let_def split: option.splits)






lemma parse_loop_commands:
  "parse_loop p acc = Inr cmds \<Longrightarrow>
     \<exists>new. cmds = acc @ new \<and> (\<forall>c \<in> set new. command_type c \<in> produced)"
proof (induction p acc rule: parse_loop.induct)
  case (1 p acc)
  show ?case
  proof (cases "\<exists>t. current_token p = Some t \<and> tok_type t \<noteq> EOF")
    case False
    with 1(2) have "cmds = acc"
      by (auto simp: parse_loop.simps [of p] split: option.splits if_splits)
    then show ?thesis by simp
  next
    case True
    then obtain t where t: "current_token p = Some t" "tok_type t \<noteq> EOF" by blast
    obtain r p' where pc: "parse_command p = (r, p')" by (cases "parse_command p")
    with 1(2) t obtain c where c: "r = Inr c" "parse_loop p' (acc @ [c]) = Inr cmds"
      by (cases r) (auto simp: parse_loop.simps [of p])
    from pc c have "(Inr c, p') = parse_command p" by simp
    from 1(1) [OF t(1) t(2) this refl c(2)]
    obtain new where "cmds = (acc @ [c]) @ new" "\<forall>x \<in> set new. command_type x \<in> produced"
      by auto
    moreover from well_formed_parse_command [of p] pc c have "command_type c \<in> produced"
      by (simp add: well_formed_def)
    ultimately show ?thesis by (intro exI [of _ "c # new"]) simp
  qed
qed

lemma parse_n_loop:
  "parse_n n p acc = Some (cs, q) \<Longrightarrow> parse_loop p acc = parse_loop q cs"
proof (induction n arbitrary: p acc)
  case 0
  then show ?case by simp
next
  case (Suc n)
  from Suc.prems obtain t c p' where t: "current_token p = Some t" "tok_type t \<noteq> EOF"
    and pc: "parse_command p = (Inr c, p')" and rest: "parse_n n p' (acc @ [c]) = Some (cs, q)"
    by (auto split: option.splits if_splits prod.splits sum.splits)
  from t pc have "parse_loop p acc = parse_loop p' (acc @ [c])"
    by (simp add: parse_loop.simps [of p])
  with Suc.IH [OF rest] show ?case by simp
qed

lemmas parse_defs = parse_def Parser_def parse_loop.simps parse_command_def
  parse_draw_command_def parse_draw_line_def parse_draw_circle_def parse_draw_rectangle_def
  parse_set_command_def parse_clear_command_def parse_move_command_def parse_pen_command_def
  parse_number_def expect_def and_then_def parser_advance_def parser_error_def Token_def
  Command_def quoted_def Let_def str_int_def str_nat.simps

lemmas float_defs = py_float_def strip_def conv_space_def code_point_def split_sign_def
  lower_def lower_char_def isupper_def float_number_def digitpart_def isdecimal_def
  float_exponent_def decimal_value_def digit_val_def pow10_def


text \<open>
  C3. When the loop of \<open>parse\<close> has parsed any number of commands and the next command is
  malformed, \<open>parse\<close> returns the error of that command and no command list, not even the
  commands parsed before. The input \<open>draw line 1 2 3\<close> gives the syntax error
  \<open>draw line requires 4 numbers: x1 y1 x2 y2\<close>, with and without the end-of-input token,
  and no command.
\<close>

theorem parse_fails_fast:
  "(parse_n n (Parser toks) [] = Some (cs, q) \<and> current_token q = Some t \<and> tok_type t \<noteq> EOF
      \<and> parse_command q = (Inl e, q') \<longrightarrow> parse toks = Inl e)
   \<and> tokenize ''draw line 1 2 3'' =
       Inr [Token KEYWORD ''draw'' 1 0, Token KEYWORD ''line'' 1 5, Token NUMBER ''1'' 1 10,
            Token NUMBER ''2'' 1 12, Token NUMBER ''3'' 1 14, Token EOF [] 1 15]
   \<and> parse [Token KEYWORD ''draw'' 1 0, Token KEYWORD ''line'' 1 5, Token NUMBER ''1'' 1 10,
             Token NUMBER ''2'' 1 12, Token NUMBER ''3'' 1 14, Token EOF [] 1 15] =
       Inl (Exception
         ''Parse error at line 1, column 15: draw line requires 4 numbers: x1 y1 x2 y2'')
   \<and> parse [Token KEYWORD ''draw'' 1 0, Token KEYWORD ''line'' 1 5, Token NUMBER ''1'' 1 10,
             Token NUMBER ''2'' 1 12, Token NUMBER ''3'' 1 14] =
       Inl (Exception ''Parse error: draw line requires 4 numbers: x1 y1 x2 y2'')"
proof (intro conjI impI)
  assume a: "parse_n n (Parser toks) [] = Some (cs, q) \<and> current_token q = Some t
      \<and> tok_type t \<noteq> EOF \<and> parse_command q = (Inl e, q')"
  with parse_n_loop [of n "Parser toks" "[]" cs q]
  have "parse_loop (Parser toks) [] = parse_loop q cs" by simp
  also from a have "\<dots> = Inl e" by (simp add: parse_loop.simps [of q])
  finally show "parse toks = Inl e" by (simp add: parse_def)
next
  show "tokenize ''draw line 1 2 3'' =
       Inr [Token KEYWORD ''draw'' 1 0, Token KEYWORD ''line'' 1 5, Token NUMBER ''1'' 1 10,
            Token NUMBER ''2'' 1 12, Token NUMBER ''3'' 1 14, Token EOF [] 1 15]"
    by code_simp
  show "parse [Token KEYWORD ''draw'' 1 0, Token KEYWORD ''line'' 1 5, Token NUMBER ''1'' 1 10,
             Token NUMBER ''2'' 1 12, Token NUMBER ''3'' 1 14, Token EOF [] 1 15] =
       Inl (Exception
         ''Parse error at line 1, column 15: draw line requires 4 numbers: x1 y1 x2 y2'')"
    by (simp add: parse_defs float_defs)
  show "parse [Token KEYWORD ''draw'' 1 0, Token KEYWORD ''line'' 1 5, Token NUMBER ''1'' 1 10,
             Token NUMBER ''2'' 1 12, Token NUMBER ''3'' 1 14] =
       Inl (Exception ''Parse error: draw line requires 4 numbers: x1 y1 x2 y2'')"
    by (simp add: parse_defs float_defs)
qed

theorem parse_fails_fast_witness:
  "parse_n 1 (Parser [Token KEYWORD ''clear'' 1 0, Token KEYWORD ''pen'' 1 6]) [] =
     Some ([(Command CLEAR Map.empty)\<lparr>cmd_line := 1, cmd_col := 0\<rparr>],
           parser_advance (Parser [Token KEYWORD ''clear'' 1 0, Token KEYWORD ''pen'' 1 6]))
   \<and> parse [Token KEYWORD ''clear'' 1 0, Token KEYWORD ''pen'' 1 6] =
       Inl (Exception (''Parse error: Expected '' @ quoted ''up'' @ '' or '' @ quoted ''down''
                       @ '' after '' @ quoted ''pen''))"
proof -
  let ?toks = "[Token KEYWORD ''clear'' 1 0, Token KEYWORD ''pen'' 1 6]"
  let ?q = "parser_advance (Parser ?toks)"
  let ?e = "Exception (''Parse error: Expected '' @ quoted ''up'' @ '' or '' @ quoted ''down''
                       @ '' after '' @ quoted ''pen'')"
  have n: "parse_n 1 (Parser ?toks) [] =
             Some ([(Command CLEAR Map.empty)\<lparr>cmd_line := 1, cmd_col := 0\<rparr>], ?q)"
    by (simp add: parse_defs)
  have c: "current_token ?q = Some (Token KEYWORD ''pen'' 1 6)"
    by (simp add: parse_defs)
  have f: "parse_command ?q = (Inl ?e, parser_advance ?q)"
    by (simp add: parse_defs)
  from parse_fails_fast [of 1 ?toks "[(Command CLEAR Map.empty)\<lparr>cmd_line := 1, cmd_col := 0\<rparr>]"
      ?q "Token KEYWORD ''pen'' 1 6" ?e "parser_advance ?q"] n c f
  show ?thesis by simp
qed





lemma parse_produced:
  assumes "parse toks = Inr cmds"
  shows "\<forall>c \<in> set cmds. command_type c \<in> produced"
  using parse_loop_commands [of "Parser toks" "[]" cmds] assms by (auto simp: parse_def)

text \<open>
  C7. No command that \<open>parse\<close> returns changes the fill mode; executing any prefix of the
  commands from the initial state leaves it false, and every oval and rectangle drawn has an
  empty fill.
\<close>

theorem fill_mode_stays_false:
  assumes "parse toks = Inr cmds"
  shows "(\<forall>c \<in> set cmds. \<forall>ex. fill_mode (fst (execute ex c)) = fill_mode ex)
       \<and> (\<forall>k \<le> length cmds. \<not> fill_mode (fst (execute_all (DrawingExecutor cv w h) (take k cmds))))
       \<and> ((\<forall>x \<in> set (calls cv). outlined x) \<longrightarrow>
            (\<forall>x \<in> set (calls (canvas (fst (execute_all (DrawingExecutor cv w h) cmds)))).
                outlined x))"
proof (intro conjI ballI allI impI)
  fix c ex show "fill_mode (fst (execute ex c)) = fill_mode ex" by (rule execute_fill_mode)
next
  fix k show "\<not> fill_mode (fst (execute_all (DrawingExecutor cv w h) (take k cmds)))"
    by (simp add: execute_all_fill_mode) (simp add: DrawingExecutor_def)
next
  fix x
  assume "\<forall>x \<in> set (calls cv). outlined x"
    and x: "x \<in> set (calls (canvas (fst (execute_all (DrawingExecutor cv w h) cmds))))"
  then have "\<forall>x \<in> set (calls (canvas (DrawingExecutor cv w h))). outlined x"
    by (simp add: DrawingExecutor_def)
  moreover have "\<not> fill_mode (DrawingExecutor cv w h)" by (simp add: DrawingExecutor_def)
  ultimately have "\<forall>x \<in> set (calls (canvas (fst (execute_all (DrawingExecutor cv w h) cmds)))).
      outlined x"
    by (rule execute_all_outlined [rotated])
  with x show "outlined x" by blast
qed

lemma parse_circle:
  "parse [Token KEYWORD ''set'' 1 0, Token KEYWORD ''color'' 1 4, Token COLOR ''blue'' 1 10,
          Token KEYWORD ''draw'' 2 0, Token KEYWORD ''circle'' 2 5, Token NUMBER ''400'' 2 12,
          Token NUMBER ''300'' 2 16, Token NUMBER ''50'' 2 20] =
   Inr [(Command SET_COLOR [''color'' \<mapsto> PStr ''blue''])\<lparr>cmd_line := 1, cmd_col := 0\<rparr>,
        (Command DRAW_CIRCLE [''x'' \<mapsto> PFloat (binary64 400), ''y'' \<mapsto> PFloat (binary64 300),
                              ''radius'' \<mapsto> PFloat (binary64 50)])\<lparr>cmd_line := 2, cmd_col := 0\<rparr>]"
  by (simp add: parse_defs float_defs)

theorem fill_mode_stays_false_witness:
  "\<not> fill_mode (fst (execute_all (DrawingExecutor \<lparr>calls = [], destroyed = False\<rparr> 800 600)
       [(Command SET_COLOR [''color'' \<mapsto> PStr ''blue''])\<lparr>cmd_line := 1, cmd_col := 0\<rparr>,
        (Command DRAW_CIRCLE [''x'' \<mapsto> PFloat (binary64 400), ''y'' \<mapsto> PFloat (binary64 300),
                              ''radius'' \<mapsto> PFloat (binary64 50)])\<lparr>cmd_line := 2, cmd_col := 0\<rparr>]))
   \<and> list_all outlined (calls (canvas (fst (execute_all
          (DrawingExecutor \<lparr>calls = [], destroyed = False\<rparr> 800 600)
          [(Command SET_COLOR [''color'' \<mapsto> PStr ''blue''])\<lparr>cmd_line := 1, cmd_col := 0\<rparr>,
           (Command DRAW_CIRCLE [''x'' \<mapsto> PFloat (binary64 400), ''y'' \<mapsto> PFloat (binary64 300),
                                 ''radius'' \<mapsto> PFloat (binary64 50)])\<lparr>cmd_line := 2, cmd_col := 0\<rparr>]))))"
  using fill_mode_stays_false [OF parse_circle, of "\<lparr>calls = [], destroyed = False\<rparr>" 800 600]
  by (auto simp: list_all_iff simp del: execute_all.simps)

text \<open>
  C9. Every command that \<open>parse\<close> returns has one of the eight kinds the rules build, never
  FILL, and executing it never gives the message of the fallback branch
  \<open>Unknown command type\<close>.
\<close>

theorem parse_never_fill:
  assumes "parse toks = Inr cmds"
  shows "\<forall>c \<in> set cmds. command_type c \<in> produced \<and> command_type c \<noteq> FILL
           \<and> (\<forall>ex. \<not> unknown_message (snd (execute ex c)))"
proof
  fix c assume "c \<in> set cmds"
  with parse_produced [OF assms] have p: "command_type c \<in> produced" by blast
  then have "command_type c \<noteq> FILL" by (auto simp: produced_def)
  with p execute_known show "command_type c \<in> produced \<and> command_type c \<noteq> FILL
           \<and> (\<forall>ex. \<not> unknown_message (snd (execute ex c)))" by blast
qed

lemma parse_pen_up:
  "parse [Token KEYWORD ''pen'' 1 0, Token KEYWORD ''up'' 1 4] =
     Inr [(Command PEN_UP Map.empty)\<lparr>cmd_line := 1, cmd_col := 0\<rparr>]"
  by (simp add: parse_defs)

theorem parse_never_fill_witness:
  "command_type ((Command PEN_UP Map.empty)\<lparr>cmd_line := 1, cmd_col := 0\<rparr>) \<noteq> FILL
   \<and> \<not> unknown_message (snd (execute (DrawingExecutor \<lparr>calls = [], destroyed = False\<rparr> 800 600)
                                 ((Command PEN_UP Map.empty)\<lparr>cmd_line := 1, cmd_col := 0\<rparr>)))"
  using parse_never_fill [OF parse_pen_up] by simp

section \<open>Properties of the lexer\<close>















lemma text_advance [simp]: "text (lexer_advance s) = text s"
  by (simp add: lexer_advance_def Let_def)




lemma pos_advance [simp]: "pos (lexer_advance s) = Suc (pos s)"
  by (simp add: lexer_advance_def Let_def)









end
